theory Spec2Isabelle
  imports Complex_Main
begin

section \<open>The Carousel's scroll arithmetic\<close>

text \<open>
  The Carousel component (src/unnamed/part_000) keeps no state of its own: every handler
  reads the scroll container behind \<open>scrollRef\<close> and the child elements behind
  \<open>childElementsRef\<close>, and the navigation handlers assign the container's
  \<open>scrollLeft\<close>. The model below follows the handlers line by line over a small
  record of what they read from the DOM.

  Numbers. A JavaScript Number is modelled by its exact value (a \<open>real\<close>), extended by
  \<open>NaN\<close> and the two infinities where the code can produce them; the rounding error of
  binary64 arithmetic and the sign of zero are left out (both zeros are falsy and print
  as 0.00, so no branch of the code tells them apart). \<open>clientWidth\<close> and
  \<open>scrollWidth\<close> are DOM integers.
\<close>

subsection \<open>Numbers and their conversions\<close>

datatype number = Finite real | PosInfinity | NegInfinity | NaN

text \<open>
  The operator \<open>/\<close> on two finite Numbers, with the exact quotient. (A zero divisor
  here is always the difference \<open>scrollWidth - clientWidth\<close> of two equal integers.)
  The binary64 quotient of the code is the nearest Number to the exact one; printed with
  two decimals the two agree except where the exact quotient is a tie between two
  hundredths, such as 3/200 or 199/200, where the code prints the value of the rounded
  quotient (0.01, 0.99). The statements about the percent below say ``a nearest
  hundredth'' and so hold of both.
\<close>

definition divide_number :: "real \<Rightarrow> real \<Rightarrow> number" where
  "divide_number a b =
     (if b = 0 then (if a = 0 then NaN else if 0 < a then PosInfinity else NegInfinity)
      else Finite (a / b))"

text \<open>\<open>v || 0\<close>: the falsy Numbers are NaN and zero.\<close>

definition or_zero :: "number \<Rightarrow> number" where
  "or_zero v = (if v = NaN \<or> v = Finite 0 then Finite 0 else v)"

text \<open>
  \<open>parseInt(x, 10)\<close> on a finite Number \<open>x\<close>: the Number is printed and the digits
  before the decimal point are read back, which truncates toward zero. (Numbers below
  \<open>10^-6\<close> or from \<open>10^21\<close> print with an exponent; a scroll offset is zero or a
  multiple of a device pixel, and the model covers positional printing only.)
\<close>

definition parseInt10 :: "real \<Rightarrow> int" where
  "parseInt10 x = (if x < 0 then - \<lfloor>- x\<rfloor> else \<lfloor>x\<rfloor>)"

definition is_digit :: "char \<Rightarrow> bool" where
  "is_digit c \<longleftrightarrow> c \<in> set ''0123456789''"

definition digit_char :: "nat \<Rightarrow> char" where
  "digit_char d = ''0123456789'' ! d"

definition digit_value :: "char \<Rightarrow> nat" where
  "digit_value c = of_char c - 48"

text \<open>The decimal digits of a natural number, \<open>''0''\<close> for zero.\<close>

fun digits_of :: "nat \<Rightarrow> string" where
  "digits_of n =
     (if n < 10 then [digit_char n] else digits_of (n div 10) @ [digit_char (n mod 10)])"

declare digits_of.simps [simp del]

definition digits_value :: "string \<Rightarrow> nat" where
  "digits_value ds = foldl (\<lambda>a c. 10 * a + digit_value c) 0 ds"

text \<open>
  \<open>x.toFixed(2)\<close> (Number.prototype.toFixed with two fraction digits): a Number that is
  not finite prints by name; otherwise the sign is split off, \<open>n\<close> is the integer
  nearest to \<open>100 * |x|\<close> (the larger one of two), its digits are padded with zeros to
  three characters and the point is put before the last two. (From \<open>10^21\<close> the standard
  prints with an exponent instead; a ratio of a scroll offset never gets there.)
\<close>

definition toFixed2 :: "number \<Rightarrow> string" where
  "toFixed2 v =
     (case v of
        NaN \<Rightarrow> ''NaN''
      | PosInfinity \<Rightarrow> ''Infinity''
      | NegInfinity \<Rightarrow> ''-Infinity''
      | Finite x \<Rightarrow>
          (let s = (if x < 0 then ''-'' else '''');
               n = nat \<lfloor>\<bar>x\<bar> * 100 + 1 / 2\<rfloor>;
               m = digits_of n;
               m = (if length m \<le> 2 then replicate (3 - length m) (CHR ''0'') @ m else m);
               k = length m
           in s @ take (k - 2) m @ ''.'' @ drop (k - 2) m))"

text \<open>
  \<open>parseFloat(str)\<close>: leading white space is skipped (here the ASCII white space; no
  string that \<open>toFixed\<close> returns starts with any), then the longest prefix that is a
  decimal literal is read: a sign, then \<open>Infinity\<close> or digits with an optional fraction
  and an optional exponent. No such prefix gives NaN.
\<close>

definition is_space :: "char \<Rightarrow> bool" where
  "is_space c \<longleftrightarrow> c \<in> set [CHR '' '', CHR 0x09, CHR 0x0A, CHR 0x0B, CHR 0x0C, CHR 0x0D]"

fun signed :: "string \<Rightarrow> bool \<times> string" where
  "signed [] = (False, [])"
| "signed (c # r) =
     (if c = CHR ''-'' then (True, r) else if c = CHR ''+'' then (False, r) else (False, c # r))"

definition exponent_part :: "string \<Rightarrow> int" where
  "exponent_part r =
     (case r of
        [] \<Rightarrow> 0
      | c # r1 \<Rightarrow>
          if c = CHR ''e'' \<or> c = CHR ''E'' then
            (let (neg, r2) = signed r1; ds = takeWhile is_digit r2
             in if ds = [] then 0
                else if neg then - int (digits_value ds) else int (digits_value ds))
          else 0)"

definition parseFloat :: "string \<Rightarrow> number" where
  "parseFloat str =
     (let (neg, u) = signed (dropWhile is_space str)
      in if take 8 u = ''Infinity'' then (if neg then NegInfinity else PosInfinity)
         else
           let ip = takeWhile is_digit u;
               r = dropWhile is_digit u;
               has_dot = (r \<noteq> [] \<and> hd r = CHR ''.'');
               fp = (if has_dot then takeWhile is_digit (tl r) else []);
               r' = (if has_dot then dropWhile is_digit (tl r) else r);
               e = exponent_part r';
               mv = real (digits_value ip) + real (digits_value fp) / 10 ^ length fp;
               mv = (if 0 \<le> e then mv * 10 ^ nat e else mv / 10 ^ nat (- e))
           in if ip = [] \<and> fp = [] then NaN else Finite (if neg then - mv else mv))"

subsection \<open>What the handlers read from the DOM\<close>

text \<open>
  A \<open>DOMRect\<close> as \<open>getBoundingClientRect()\<close> returns it, with the three fields the
  handlers read (window coordinates). The scroll container is the element behind
  \<open>scrollRef\<close>. Of a child element the handlers only ever take the bounding
  rectangle, so an entry of \<open>childElementsRef.current\<close> is that rectangle, or \<open>None\<close>
  for an entry that is not an element (the initial filler of the array, or \<open>null\<close>
  after the item was unmounted), on which the method call throws.
\<close>

record DOMRect =
  left :: real
  right :: real
  width :: real

record element =
  clientWidth :: int
  scrollLeft :: real
  scrollWidth :: int
  boundingClientRect :: DOMRect

record carousel =
  scrollRef :: "element option"
  childElementsRef :: "DOMRect option list"

datatype error = TypeError

datatype callback = OnChangeIsScrollable bool | OnScroll number

text \<open>
  Assigning \<open>scrollRef.current.scrollLeft\<close>. What the element makes of the assigned
  number is the browser's business and no code of the component: the element scrolls as
  far as its scroll range allows, which depends on its direction, and onto its pixel
  grid. The navigation handlers therefore take the element's setter as a parameter: the
  function \<open>settle\<close> gives the scroll offset the element settles on when a number is
  assigned. The children move with the content, so their rectangles shift by the
  distance scrolled; \<open>scrolled_to\<close> is the state once the element has settled.
\<close>

type_synonym setter = "element \<Rightarrow> real \<Rightarrow> real"

definition shift_rect :: "real \<Rightarrow> DOMRect \<Rightarrow> DOMRect" where
  "shift_rect d r = r\<lparr>left := left r - d, right := right r - d\<rparr>"

definition scrolled_to :: "carousel \<Rightarrow> element \<Rightarrow> real \<Rightarrow> carousel" where
  "scrolled_to c el v =
     (let d = v - scrollLeft el
      in c\<lparr>scrollRef := Some (el\<lparr>scrollLeft := v\<rparr>),
           childElementsRef := map (map_option (shift_rect d)) (childElementsRef c)\<rparr>)"

subsection \<open>The handlers\<close>

text \<open>
  \<open>getWidths\<close> returns the object \<open>{clientWidth, itemWidths, scrollLeft, scrollWidth}\<close>,
  here a tuple in that order. The \<open>reduce\<close> over the children runs first and throws
  at an entry that is not an element; then the container is read.
\<close>

definition getWidths :: "carousel \<Rightarrow> error + (int \<times> real \<times> int \<times> int)" where
  "getWidths c =
     (if None \<in> set (childElementsRef c) then Inl TypeError
      else
        let allItemWidths = foldl (\<lambda>acc curVal. acc + width (the curVal)) 0 (childElementsRef c)
        in case scrollRef c of
             None \<Rightarrow> Inl TypeError
           | Some el \<Rightarrow>
               Inr (clientWidth el, allItemWidths, parseInt10 (scrollLeft el), scrollWidth el))"

text \<open>
  \<open>handleScroll\<close> returns the callbacks it invoked, in order. The guard on
  \<open>scrollRef.current\<close> comes after \<open>getWidths\<close> has read the container.
\<close>

definition handleScroll :: "carousel \<Rightarrow> error + callback list" where
  "handleScroll c =
     (case getWidths c of
        Inl e \<Rightarrow> Inl e
      | Inr (clientWidth', itemWidths, scrollLeft', scrollWidth') \<Rightarrow>
          let scrollLeftMax = scrollWidth' - clientWidth';
              scrollPercent =
                or_zero (parseFloat (toFixed2
                  (divide_number (real_of_int scrollLeft') (real_of_int scrollLeftMax))))
          in if scrollRef c = None then Inr []
             else Inr [OnChangeIsScrollable (scrollWidth' > clientWidth'), OnScroll scrollPercent])"

definition getElementInView :: "DOMRect \<Rightarrow> DOMRect \<Rightarrow> bool" where
  "getElementInView containerRect elementRect =
     (let leftIsRightOfContainerLeft = (left elementRect \<ge> left containerRect);
          rightIsLeftOfContainerRight = (right elementRect \<le> right containerRect)
      in leftIsRightOfContainerLeft \<and> rightIsLeftOfContainerRight)"

text \<open>The children in view, each given by its bounding rectangle.\<close>

definition getElementsInView :: "carousel \<Rightarrow> error + DOMRect list" where
  "getElementsInView c =
     (case scrollRef c of
        None \<Rightarrow> Inl TypeError
      | Some el \<Rightarrow>
          let containerRect = boundingClientRect el
          in if None \<in> set (childElementsRef c) then Inl TypeError
             else Inr (filter (getElementInView containerRect) (map the (childElementsRef c))))"

text \<open>
  \<open>handleNext\<close> assigns \<open>scrollLeft + scrollValue\<close> (the source's \<open>+=\<close>); the element
  settles.
\<close>

definition handleNext :: "setter \<Rightarrow> carousel \<Rightarrow> error + carousel" where
  "handleNext settle c =
     (case scrollRef c of
        None \<Rightarrow> Inl TypeError
      | Some el \<Rightarrow>
          let containerRect = boundingClientRect el
          in case getElementsInView c of
               Inl e \<Rightarrow> Inl e
             | Inr elRectsInView \<Rightarrow>
                 let visibleWidth = foldl (\<lambda>acc curVal. acc + width curVal) 0 elRectsInView;
                     scrollValue = (if visibleWidth > 0 then visibleWidth else width containerRect)
                 in Inr (scrolled_to c el (settle el (scrollLeft el + scrollValue))))"

text \<open>
  In \<open>handlePrev\<close> the first rectangle in view is read only when the summed width is
  positive; on an empty array the read would throw.
\<close>

definition handlePrev :: "setter \<Rightarrow> carousel \<Rightarrow> error + carousel" where
  "handlePrev settle c =
     (case scrollRef c of
        None \<Rightarrow> Inl TypeError
      | Some el \<Rightarrow>
          let containerRect = boundingClientRect el
          in case getElementsInView c of
               Inl e \<Rightarrow> Inl e
             | Inr elRectsInView \<Rightarrow>
                 let visibleWidth = foldl (\<lambda>acc curVal. acc + width curVal) 0 elRectsInView
                 in if visibleWidth > 0 then
                      (case elRectsInView of
                         [] \<Rightarrow> Inl TypeError
                       | r # _ \<Rightarrow>
                           Inr (scrolled_to c el
                                  (settle el (scrollLeft el - (visibleWidth - left r)))))
                    else
                      Inr (scrolled_to c el
                             (settle el
                                (scrollLeft el - (width containerRect + left containerRect)))))"

text \<open>
  \<open>handleReset\<close> assigns 0, the scroll origin. The origin lies in the scroll range of
  every element, whatever its direction and its pixel grid, so the element settles
  on 0.
\<close>

definition handleReset :: "carousel \<Rightarrow> error + carousel" where
  "handleReset c =
     (case scrollRef c of
        None \<Rightarrow> Inl TypeError
      | Some el \<Rightarrow> Inr (scrolled_to c el 0))"

text \<open>The listener for \<open>scrollend\<close> on the container.\<close>

definition handleScrollend :: "carousel \<Rightarrow> error + callback list" where
  "handleScrollend c = handleScroll c"

subsection \<open>Notions of the specification\<close>

text \<open>
  A mounted carousel: \<open>scrollRef.current\<close> is the scroll container and every entry of
  \<open>childElementsRef.current\<close> is an element. These are the carousel states of the
  specification; a handler that reads a missing element throws.
\<close>

definition mounted :: "carousel \<Rightarrow> element \<Rightarrow> bool" where
  "mounted c el \<longleftrightarrow> scrollRef c = Some el \<and> None \<notin> set (childElementsRef c)"

text \<open>
  The invariant of the data model: the scroll offset lies between 0 and the scrollable
  width minus the viewport width (between 0 and 0 when the content fits).
\<close>

definition maxScrollLeft :: "element \<Rightarrow> real" where
  "maxScrollLeft el = max 0 (real_of_int (scrollWidth el - clientWidth el))"

definition within_scroll_range :: "element \<Rightarrow> bool" where
  "within_scroll_range el \<longleftrightarrow> 0 \<le> scrollLeft el \<and> scrollLeft el \<le> maxScrollLeft el"

text \<open>
  Rounding to the nearest hundredth, the one farther from zero of two: the value that
  \<open>toFixed(2)\<close> prints.
\<close>

definition round2 :: "real \<Rightarrow> real" where
  "round2 x =
     (if x < 0 then - (real (nat \<lfloor>\<bar>x\<bar> * 100 + 1 / 2\<rfloor>) / 100)
      else real (nat \<lfloor>\<bar>x\<bar> * 100 + 1 / 2\<rfloor>) / 100)"

text \<open>
  The percent as the specification words it: the scroll offset divided by the scrollable
  width minus the viewport width, and 0 when that quotient is not a number.
\<close>

definition spec_scrollPercent :: "element \<Rightarrow> number" where
  "spec_scrollPercent el =
     (case divide_number (scrollLeft el) (real_of_int (scrollWidth el - clientWidth el)) of
        NaN \<Rightarrow> Finite 0
      | v \<Rightarrow> v)"

text \<open>
  A visible item, in the words of the specification: a child whose bounding box lies
  entirely within the viewport's bounding box (on the horizontal extent, which is what a
  rectangle carries here). \<open>inView\<close> lists the visible items in document order and
  \<open>visibleWidth\<close> sums their widths. None of the three refers to the handlers.
\<close>

definition lies_within :: "DOMRect \<Rightarrow> DOMRect \<Rightarrow> bool" where
  "lies_within box r \<longleftrightarrow> left box \<le> left r \<and> right r \<le> right box"

definition inView :: "carousel \<Rightarrow> element \<Rightarrow> DOMRect list" where
  "inView c el = filter (lies_within (boundingClientRect el)) (map the (childElementsRef c))"

definition visibleWidth :: "carousel \<Rightarrow> element \<Rightarrow> real" where
  "visibleWidth c el = sum_list (map width (inView c el))"

text \<open>
  The amounts by which the specification lets the navigation move the scroll offset:
  \<open>advance()\<close> by the summed width of the visible items when that is positive and
  otherwise by the width of the viewport's bounding box; \<open>retreat()\<close> by that sum minus
  the left offset of the first visible item, and otherwise by the width of the
  viewport's bounding box plus its left offset.
\<close>

definition advance_amount :: "carousel \<Rightarrow> element \<Rightarrow> real" where
  "advance_amount c el =
     (if visibleWidth c el > 0 then visibleWidth c el else width (boundingClientRect el))"

definition retreat_amount :: "carousel \<Rightarrow> element \<Rightarrow> real" where
  "retreat_amount c el =
     (if visibleWidth c el > 0 then visibleWidth c el - left (hd (inView c el))
      else width (boundingClientRect el) + left (boundingClientRect el))"

text \<open>The scroll offset a handler leaves behind, if it returned.\<close>

definition offset_after :: "error + carousel \<Rightarrow> real option" where
  "offset_after r = (case r of Inl e \<Rightarrow> None | Inr c \<Rightarrow> map_option scrollLeft (scrollRef c))"

text \<open>
  Whether the content is scrollable, and the values \<open>onChangeIsScrollable\<close> received
  over a run of \<open>scrollend\<close> events, in order.
\<close>

definition is_scrollable :: "carousel \<Rightarrow> bool" where
  "is_scrollable c =
     (case scrollRef c of None \<Rightarrow> False | Some el \<Rightarrow> scrollWidth el > clientWidth el)"

fun reported :: "callback list \<Rightarrow> bool list" where
  "reported [] = []"
| "reported (OnChangeIsScrollable b # cbs) = b # reported cbs"
| "reported (OnScroll p # cbs) = reported cbs"

fun isScrollable_reports :: "(error + callback list) list \<Rightarrow> bool list" where
  "isScrollable_reports [] = []"
| "isScrollable_reports (Inl e # rs) = isScrollable_reports rs"
| "isScrollable_reports (Inr cbs # rs) = reported cbs @ isScrollable_reports rs"

subsection \<open>Scroll containers and layouts\<close>

text \<open>
  Modelled from the spec: the setter of \<open>scrollLeft\<close> on the scroll container, which is
  the browser's and not under src/. By the specification's invariant the scroll offset
  remains within 0 and the scrollable width minus the viewport width: a left-to-right
  container that is assigned a whole number of pixels settles on the nearest offset in
  that range. It stands for the container only where a layout below is scrolled by whole
  pixels; no general statement rests on it.
\<close>

definition ltr_container :: setter where
  "ltr_container el v = max 0 (min v (maxScrollLeft el))"

text \<open>
  Modelled from the browser, on which the specification is silent: in a right-to-left
  container the content is scrolled toward negative offsets, and the element settles on
  the nearest offset between minus (the scrollable width minus the viewport width) and 0.
\<close>

definition rtl_container :: setter where
  "rtl_container el v = min 0 (max v (- maxScrollLeft el))"

text \<open>
  The scenario of the specification: a viewport 300 wide whose left edge is at \<open>L\<close> in
  the window, holding a row of three items 150 wide each (450 of content) from left to
  right, scrolled by \<open>s\<close>.
\<close>

definition item :: "real \<Rightarrow> real \<Rightarrow> DOMRect option" where
  "item l w = Some \<lparr>left = l, right = l + w, width = w\<rparr>"

definition viewport :: "real \<Rightarrow> real \<Rightarrow> element" where
  "viewport L s =
     \<lparr>clientWidth = 300, scrollLeft = s, scrollWidth = 450,
      boundingClientRect = \<lparr>left = L, right = L + 300, width = 300\<rparr>\<rparr>"

definition scenario :: "real \<Rightarrow> real \<Rightarrow> carousel" where
  "scenario L s =
     \<lparr>scrollRef = Some (viewport L s),
      childElementsRef = [item (L - s) 150, item (L + 150 - s) 150, item (L + 300 - s) 150]\<rparr>"

text \<open>
  The same viewport (at the left edge of the window) and items in a right-to-left
  container: the first item starts at the right edge, the content is scrolled by
  \<open>s \<le> 0\<close>, and the children are still listed in document order.
\<close>

definition rtl_scenario :: "real \<Rightarrow> carousel" where
  "rtl_scenario s =
     \<lparr>scrollRef = Some (viewport 0 s),
      childElementsRef = [item (150 - s) 150, item (- s) 150, item (- 150 - s) 150]\<rparr>"

text \<open>
  A third layout, left to right: a viewport 300 wide, scrolled by 350 over two cards 500
  wide with an empty item (width 0) between them. Only the empty item lies within the
  viewport.
\<close>

definition wide_viewport :: element where
  "wide_viewport =
     \<lparr>clientWidth = 300, scrollLeft = 350, scrollWidth = 1000,
      boundingClientRect = \<lparr>left = 0, right = 300, width = 300\<rparr>\<rparr>"

definition wide_cards :: carousel where
  "wide_cards =
     \<lparr>scrollRef = Some wide_viewport,
      childElementsRef = [item (- 350) 500, item 150 0, item 150 500]\<rparr>"

section \<open>Properties\<close>

subsection \<open>Printing and reading back\<close>

lemma digit_char_props:
  assumes "d < 10"
  shows "is_digit (digit_char d)" and "digit_value (digit_char d) = d"
proof -
  from assms have "d \<in> {0, 1, 2, 3, 4, 5, 6, 7, 8, 9}" by auto
  then show "is_digit (digit_char d)" and "digit_value (digit_char d) = d"
    by (auto simp: is_digit_def digit_char_def digit_value_def)
qed

lemma digits_value_snoc:
  "digits_value (ds @ [c]) = 10 * digits_value ds + digit_value c"
  by (simp add: digits_value_def)

lemma digits_of_digits: "c \<in> set (digits_of n) \<Longrightarrow> is_digit c"
proof (induction n arbitrary: c rule: digits_of.induct)
  case (1 n)
  show ?case
  proof (cases "n < 10")
    case True
    with "1.prems" show ?thesis
      by (simp add: digits_of.simps [of n] digit_char_props)
  next
    case False
    with "1.prems" "1.IH" show ?thesis
      by (auto simp: digits_of.simps [of n] digit_char_props)
  qed
qed

lemma digits_value_digits_of: "digits_value (digits_of n) = n"
proof (induction n rule: digits_of.induct)
  case (1 n)
  show ?case
  proof (cases "n < 10")
    case True
    then show ?thesis
      by (simp add: digits_of.simps [of n] digits_value_def digit_char_props)
  next
    case False
    with "1.IH" show ?thesis
      by (simp add: digits_of.simps [of n] digits_value_snoc digit_char_props)
  qed
qed

lemma foldl_digits_acc:
  "foldl (\<lambda>a c. 10 * a + digit_value c) acc ds = acc * 10 ^ length ds + digits_value ds"
proof (induction ds arbitrary: acc)
  case Nil
  show ?case by (simp add: digits_value_def)
next
  case (Cons d ds)
  have "foldl (\<lambda>a c. 10 * a + digit_value c) acc (d # ds)
        = (10 * acc + digit_value d) * 10 ^ length ds + digits_value ds"
    by (simp add: Cons.IH)
  also have "digits_value (d # ds) = digit_value d * 10 ^ length ds + digits_value ds"
    using Cons.IH [of "digit_value d"] by (simp add: digits_value_def)
  then have "(10 * acc + digit_value d) * 10 ^ length ds + digits_value ds
        = acc * 10 ^ length (d # ds) + digits_value (d # ds)"
    by (simp add: algebra_simps)
  finally show ?case .
qed

lemma digits_value_append:
  "digits_value (as @ bs) = digits_value as * 10 ^ length bs + digits_value bs"
  using foldl_digits_acc [of "digits_value as" bs] by (simp add: digits_value_def)

lemma digits_value_zeros: "digits_value (replicate k (CHR ''0'')) = 0"
proof (induction k)
  case 0
  show ?case by (simp add: digits_value_def)
next
  case (Suc k)
  have "digits_value ([CHR ''0''] @ replicate k (CHR ''0'')) = 0"
    unfolding digits_value_append using Suc.IH by (simp add: digits_value_def digit_value_def)
  then show ?case by simp
qed

lemma parse_fixed:
  assumes as: "as \<noteq> []" "\<forall>c \<in> set as. is_digit c"
    and bs: "\<forall>c \<in> set bs. is_digit c"
  shows "parseFloat ((if neg then ''-'' else []) @ as @ CHR ''.'' # bs)
         = Finite (if neg then - (real (digits_value as) + real (digits_value bs) / 10 ^ length bs)
                   else real (digits_value as) + real (digits_value bs) / 10 ^ length bs)"
proof -
  from as obtain c cs where as_eq: "as = c # cs" and c: "is_digit c"
    by (cases as) auto
  let ?u = "as @ CHR ''.'' # bs"
  have c_chars: "c \<noteq> CHR ''-''" "c \<noteq> CHR ''+''" "c \<noteq> CHR ''I''" "\<not> is_space c"
    using c by (auto simp: is_digit_def is_space_def)
  have dot: "\<not> is_digit (CHR ''.'')" "\<not> is_space (CHR ''-'')"
    by (simp_all add: is_digit_def is_space_def)
  have sg: "signed (dropWhile is_space ((if neg then ''-'' else []) @ ?u)) = (neg, ?u)"
    using c_chars dot by (simp add: as_eq)
  have inf: "take 8 ?u \<noteq> ''Infinity''"
    using c_chars by (simp add: as_eq)
  have ip: "takeWhile is_digit ?u = as"
    using as(2) dot by (simp add: takeWhile_append2)
  have r: "dropWhile is_digit ?u = CHR ''.'' # bs"
    using as(2) dot by (simp add: dropWhile_append2)
  have fp: "takeWhile is_digit bs = bs" "dropWhile is_digit bs = []"
    using bs by simp_all
  have ex: "exponent_part [] = 0"
    by (simp add: exponent_part_def)
  show ?thesis
    unfolding parseFloat_def sg Let_def prod.case ip r
    using inf as(1) by (simp add: fp ex)
qed

lemma parseFloat_toFixed2: "parseFloat (toFixed2 (Finite x)) = Finite (round2 x)"
proof -
  define n where "n = nat \<lfloor>\<bar>x\<bar> * 100 + 1 / 2\<rfloor>"
  define m where
    "m = (if length (digits_of n) \<le> 2
          then replicate (3 - length (digits_of n)) (CHR ''0'') @ digits_of n
          else digits_of n)"
  define as where "as = take (length m - 2) m"
  define bs where "bs = drop (length m - 2) m"
  define v where "v = real (digits_value as) + real (digits_value bs) / 10 ^ length bs"
  have len: "3 \<le> length m"
    by (auto simp: m_def)
  have digs: "\<forall>c \<in> set m. is_digit c"
    using digits_of_digits [of _ n] by (auto simp: m_def is_digit_def)
  have val: "digits_value m = n"
    by (simp add: m_def digits_value_append digits_value_zeros digits_value_digits_of)
  have m_eq: "m = as @ bs"
    by (simp add: as_def bs_def)
  have as: "as \<noteq> []" "\<forall>c \<in> set as. is_digit c"
    using len digs by (auto simp: as_def dest: in_set_takeD)
  have bs: "\<forall>c \<in> set bs. is_digit c" "length bs = 2"
    using len digs by (auto simp: bs_def dest: in_set_dropD)
  have "real n = real (digits_value as) * 100 + real (digits_value bs)"
    using val bs(2) by (simp add: m_eq digits_value_append)
  then have v: "v = real n / 100"
    using bs(2) by (simp add: v_def)
  have "toFixed2 (Finite x) = (if x < 0 then ''-'' else []) @ as @ CHR ''.'' # bs"
    by (simp add: toFixed2_def Let_def n_def [symmetric] m_def [symmetric] as_def bs_def)
  then have "parseFloat (toFixed2 (Finite x)) = Finite (if x < 0 then - v else v)"
    using parse_fixed [OF as bs(1), of "x < 0"] by (simp only: v_def)
  also have "(if x < 0 then - v else v) = round2 x"
    by (simp only: round2_def n_def v)
  finally show ?thesis .
qed

lemma round2_cases:
  obtains k :: int where "0 \<le> k" "real_of_int k \<le> \<bar>x\<bar> * 100 + 1 / 2"
    "\<bar>x\<bar> * 100 + 1 / 2 < real_of_int k + 1"
    "round2 x = (if x < 0 then - (real_of_int k / 100) else real_of_int k / 100)"
proof -
  define k where "k = \<lfloor>\<bar>x\<bar> * 100 + 1 / 2\<rfloor>"
  have "0 \<le> \<bar>x\<bar> * 100 + 1 / 2" by simp
  then have k0: "0 \<le> k" unfolding k_def by (simp only: zero_le_floor)
  then have "real (nat k) = real_of_int k" by simp
  then have r: "round2 x = (if x < 0 then - (real_of_int k / 100) else real_of_int k / 100)"
    by (simp only: round2_def k_def)
  have "real_of_int k \<le> \<bar>x\<bar> * 100 + 1 / 2" "\<bar>x\<bar> * 100 + 1 / 2 < real_of_int k + 1"
    unfolding k_def by linarith+
  with k0 r show ?thesis using that by blast
qed

lemma round2_hundredth: "\<exists>n::int. round2 x = real_of_int n / 100"
proof -
  obtain k :: int where
    "round2 x = (if x < 0 then - (real_of_int k / 100) else real_of_int k / 100)"
    by (rule round2_cases)
  then have "round2 x = real_of_int (if x < 0 then - k else k) / 100"
    by simp
  then show ?thesis ..
qed

lemma round2_near: "\<bar>round2 x - x\<bar> \<le> 1 / 200"
proof -
  obtain k :: int where k: "real_of_int k \<le> \<bar>x\<bar> * 100 + 1 / 2"
    "\<bar>x\<bar> * 100 + 1 / 2 < real_of_int k + 1"
    "round2 x = (if x < 0 then - (real_of_int k / 100) else real_of_int k / 100)"
    by (rule round2_cases)
  show ?thesis
  proof (cases "x < 0")
    case True
    with k have "real_of_int k \<le> 1 / 2 - x * 100" "1 / 2 - x * 100 < real_of_int k + 1"
      "round2 x = - (real_of_int k / 100)"
      by simp_all
    then show ?thesis by linarith
  next
    case False
    with k have "real_of_int k \<le> x * 100 + 1 / 2" "x * 100 + 1 / 2 < real_of_int k + 1"
      "round2 x = real_of_int k / 100"
      by simp_all
    then show ?thesis by linarith
  qed
qed

lemma round2_unit:
  assumes "0 \<le> x" "x \<le> 1"
  shows "0 \<le> round2 x \<and> round2 x \<le> 1"
proof -
  obtain k :: int where k: "0 \<le> k" "real_of_int k \<le> \<bar>x\<bar> * 100 + 1 / 2"
    "round2 x = (if x < 0 then - (real_of_int k / 100) else real_of_int k / 100)"
    by (rule round2_cases)
  from k(2) assms have "real_of_int k < 101" by simp
  then have "k \<le> 100" by linarith
  then have "real_of_int k \<le> 100" by simp
  with k(1,3) assms show ?thesis by simp
qed

lemma round2_zero: "round2 0 = 0"
  by (simp add: round2_def)

subsection \<open>The handlers on a mounted carousel\<close>

lemma or_zero_Finite: "or_zero (Finite y) = Finite y"
  by (simp add: or_zero_def)

lemma parseFloat_names:
  "parseFloat ''NaN'' = NaN" "parseFloat ''Infinity'' = PosInfinity"
  "parseFloat ''-Infinity'' = NegInfinity"
  by (simp_all add: parseFloat_def is_space_def is_digit_def)

lemma report_value:
  "or_zero (parseFloat (toFixed2 (divide_number a b))) =
     (if b = 0 then (if a = 0 then Finite 0 else if 0 < a then PosInfinity else NegInfinity)
      else Finite (round2 (a / b)))"
proof (cases "b = 0")
  case True
  then show ?thesis
    by (simp add: divide_number_def toFixed2_def parseFloat_names or_zero_def)
next
  case False
  then show ?thesis
    by (simp add: divide_number_def parseFloat_toFixed2 or_zero_Finite)
qed

lemma report_zero:
  "or_zero (parseFloat (toFixed2 (divide_number 0 b))) = Finite 0"
  by (simp add: report_value round2_zero)

lemma getWidths_mounted:
  assumes "mounted c el"
  shows "\<exists>w. getWidths c = Inr (clientWidth el, w, parseInt10 (scrollLeft el), scrollWidth el)"
  using assms by (simp add: mounted_def getWidths_def)

lemma handleScroll_mounted:
  assumes "mounted c el"
  shows "handleScroll c =
           Inr [OnChangeIsScrollable (scrollWidth el > clientWidth el),
                OnScroll (or_zero (parseFloat (toFixed2
                  (divide_number (real_of_int (parseInt10 (scrollLeft el)))
                     (real_of_int (scrollWidth el - clientWidth el))))))]"
proof -
  from getWidths_mounted [OF assms] obtain w where
    "getWidths c = Inr (clientWidth el, w, parseInt10 (scrollLeft el), scrollWidth el)" ..
  moreover have "scrollRef c \<noteq> None"
    using assms by (simp add: mounted_def)
  ultimately show ?thesis
    by (simp add: handleScroll_def)
qed

text \<open>
  The guard in \<open>handleScroll\<close> never returns early: without a container \<open>getWidths\<close>
  has thrown before.
\<close>

lemma handleScroll_guard_dead: "handleScroll c \<noteq> Inr []"
  by (cases "scrollRef c") (simp_all add: handleScroll_def getWidths_def Let_def split: prod.splits)

lemma handleScrollend_mounted:
  assumes "mounted c el"
  shows "\<exists>p. handleScrollend c = Inr [OnChangeIsScrollable (is_scrollable c), OnScroll p]"
  using assms handleScroll_mounted [OF assms]
  by (simp add: handleScrollend_def is_scrollable_def mounted_def)

lemma parseInt10_truncates:
  "\<bar>real_of_int (parseInt10 x)\<bar> \<le> \<bar>x\<bar> \<and> \<bar>x - real_of_int (parseInt10 x)\<bar> < 1"
proof (cases "x < 0")
  case True
  define k where "k = \<lfloor>- x\<rfloor>"
  have "real_of_int k \<le> - x" "- x < real_of_int k + 1"
    unfolding k_def by linarith+
  moreover have "0 \<le> real_of_int k"
    using True by (simp add: k_def)
  moreover have "real_of_int (parseInt10 x) = - real_of_int k"
    using True by (simp add: parseInt10_def k_def)
  ultimately show ?thesis by linarith
next
  case False
  define k where "k = \<lfloor>x\<rfloor>"
  have "real_of_int k \<le> x" "x < real_of_int k + 1"
    unfolding k_def by linarith+
  moreover have "0 \<le> real_of_int k"
    using False by (simp add: k_def)
  moreover have "real_of_int (parseInt10 x) = real_of_int k"
    using False by (simp add: parseInt10_def k_def)
  ultimately show ?thesis by linarith
qed

text \<open>
  The percent of a mounted carousel: a nearest hundredth of the truncated offset over the
  difference of the widths, and 0 for zero by zero.
\<close>

lemma handleScroll_percent:
  assumes "mounted c el"
  shows "\<exists>p. handleScroll c =
             Inr [OnChangeIsScrollable (scrollWidth el > clientWidth el), OnScroll p] \<and>
           (scrollWidth el \<noteq> clientWidth el \<longrightarrow>
              (\<exists>n::int. p = Finite (real_of_int n / 100) \<and>
                 \<bar>real_of_int n / 100 -
                    real_of_int (parseInt10 (scrollLeft el))
                      / real_of_int (scrollWidth el - clientWidth el)\<bar> \<le> 1 / 200)) \<and>
           (scrollWidth el = clientWidth el \<and> parseInt10 (scrollLeft el) = 0 \<longrightarrow> p = Finite 0)"
proof -
  define t where "t = parseInt10 (scrollLeft el)"
  define m where "m = scrollWidth el - clientWidth el"
  define p where "p = or_zero (parseFloat (toFixed2 (divide_number (real_of_int t) (real_of_int m))))"
  have hs: "handleScroll c =
      Inr [OnChangeIsScrollable (scrollWidth el > clientWidth el), OnScroll p]"
    using handleScroll_mounted [OF assms] by (simp add: p_def t_def m_def)
  have near: "\<exists>n::int. p = Finite (real_of_int n / 100) \<and>
      \<bar>real_of_int n / 100 - real_of_int t / real_of_int m\<bar> \<le> 1 / 200" if "m \<noteq> 0"
  proof -
    obtain n :: int where n: "round2 (real_of_int t / real_of_int m) = real_of_int n / 100"
      using round2_hundredth by blast
    have "\<bar>real_of_int n / 100 - real_of_int t / real_of_int m\<bar> \<le> 1 / 200"
      using round2_near [of "real_of_int t / real_of_int m"] by (simp add: n)
    moreover have "p = Finite (real_of_int n / 100)"
      using that by (simp add: p_def report_value n)
    ultimately show ?thesis by blast
  qed
  have zero: "p = Finite 0" if "m = 0" "t = 0"
    using that by (simp add: p_def report_zero)
  from hs near zero show ?thesis
    unfolding t_def m_def by (intro exI [of _ p]) auto
qed

text \<open>The code's test for an element in view is the specification's visible item.\<close>

lemma getElementInView_lies_within: "getElementInView box r = lies_within box r"
  by (auto simp: getElementInView_def lies_within_def)

lemma foldl_widths:
  "foldl (\<lambda>acc curVal. acc + width curVal) a rs = a + sum_list (map width rs)"
  by (induction rs arbitrary: a) simp_all

lemma getElementsInView_mounted:
  "mounted c el \<Longrightarrow> getElementsInView c = Inr (inView c el)"
  by (simp add: mounted_def getElementsInView_def inView_def getElementInView_lies_within [abs_def])

lemma visibleWidth_positive: "0 < visibleWidth c el \<Longrightarrow> inView c el \<noteq> []"
  by (auto simp: visibleWidth_def)

lemma handleNext_mounted:
  assumes "mounted c el"
  shows "handleNext settle c =
           Inr (scrolled_to c el (settle el (scrollLeft el + advance_amount c el)))"
  using assms getElementsInView_mounted [OF assms]
  by (simp add: handleNext_def mounted_def foldl_widths visibleWidth_def advance_amount_def)

lemma handlePrev_mounted:
  assumes "mounted c el"
  shows "handlePrev settle c =
           Inr (scrolled_to c el (settle el (scrollLeft el - retreat_amount c el)))"
proof (cases "visibleWidth c el > 0")
  case True
  then obtain r rs where "inView c el = r # rs"
    using visibleWidth_positive by (cases "inView c el") auto
  with True assms getElementsInView_mounted [OF assms] show ?thesis
    by (simp add: handlePrev_def mounted_def foldl_widths visibleWidth_def retreat_amount_def
        Let_def)
next
  case False
  with assms getElementsInView_mounted [OF assms] show ?thesis
    by (simp add: handlePrev_def mounted_def foldl_widths visibleWidth_def retreat_amount_def
        Let_def)
qed

lemma handleReset_mounted: "mounted c el \<Longrightarrow> handleReset c = Inr (scrolled_to c el 0)"
  by (simp add: handleReset_def mounted_def)

lemma scrolled_to_mounted:
  "mounted c el \<Longrightarrow> mounted (scrolled_to c el v) (el\<lparr>scrollLeft := v\<rparr>)"
  by (auto simp: mounted_def scrolled_to_def Let_def)

lemma scrolled_to_scrollRef: "scrollRef (scrolled_to c el v) = Some (el\<lparr>scrollLeft := v\<rparr>)"
  by (simp add: scrolled_to_def Let_def)

lemma scrolled_to_widths:
  "map (map_option width) (childElementsRef (scrolled_to c el v))
     = map (map_option width) (childElementsRef c)"
  by (simp add: scrolled_to_def Let_def shift_rect_def option.map_comp comp_def)

lemma offset_after_scrolled_to: "offset_after (Inr (scrolled_to c el v)) = Some v"
  by (simp add: offset_after_def scrolled_to_scrollRef)

subsection \<open>The layouts\<close>

lemma scenario_mounted: "mounted (scenario L s) (viewport L s)"
  by (simp add: mounted_def scenario_def item_def)

lemma scenario_scrolled_to: "scrolled_to (scenario L s) (viewport L s) v = scenario L v"
  by (simp add: scrolled_to_def scenario_def viewport_def item_def shift_rect_def Let_def)

lemma scenario_inView_start:
  "inView (scenario L 0) (viewport L 0)
     = [\<lparr>left = L, right = L + 150, width = 150\<rparr>, \<lparr>left = L + 150, right = L + 300, width = 150\<rparr>]"
  by (simp add: inView_def scenario_def viewport_def item_def lies_within_def)

lemma scenario_inView_end:
  "inView (scenario L 150) (viewport L 150)
     = [\<lparr>left = L, right = L + 150, width = 150\<rparr>, \<lparr>left = L + 150, right = L + 300, width = 150\<rparr>]"
  by (simp add: inView_def scenario_def viewport_def item_def lies_within_def)

lemma scenario_inView_beyond:
  "inView (scenario L 300) (viewport L 300) = [\<lparr>left = L, right = L + 150, width = 150\<rparr>]"
  by (simp add: inView_def scenario_def viewport_def item_def lies_within_def)

lemma scenario_advance_amount: "advance_amount (scenario L 0) (viewport L 0) = 300"
  by (simp add: advance_amount_def visibleWidth_def scenario_inView_start)

lemma scenario_retreat_amount_start:
  "retreat_amount (scenario L 0) (viewport L 0) = 300 - L"
  by (simp add: retreat_amount_def visibleWidth_def scenario_inView_start)

lemma scenario_retreat_amount_end:
  "retreat_amount (scenario L 150) (viewport L 150) = 300 - L"
  by (simp add: retreat_amount_def visibleWidth_def scenario_inView_end)

lemma scenario_retreat_amount_beyond:
  "retreat_amount (scenario L 300) (viewport L 300) = 150 - L"
  by (simp add: retreat_amount_def visibleWidth_def scenario_inView_beyond)

lemma scenario_handleNext:
  "handleNext settle (scenario L 0) = Inr (scenario L (settle (viewport L 0) 300))"
  by (simp add: handleNext_mounted [OF scenario_mounted] scenario_advance_amount
      scenario_scrolled_to) (simp add: viewport_def)

lemma scenario_handlePrev_start:
  "handlePrev settle (scenario L 0) = Inr (scenario L (settle (viewport L 0) (L - 300)))"
  by (simp add: handlePrev_mounted [OF scenario_mounted] scenario_retreat_amount_start
      scenario_scrolled_to) (simp add: viewport_def)

lemma scenario_handlePrev_end:
  "handlePrev settle (scenario L 150) = Inr (scenario L (settle (viewport L 150) (L - 150)))"
  by (simp add: handlePrev_mounted [OF scenario_mounted] scenario_retreat_amount_end
      scenario_scrolled_to) (simp add: viewport_def)

lemma scenario_handlePrev_beyond:
  "handlePrev settle (scenario L 300) = Inr (scenario L (settle (viewport L 300) (150 + L)))"
  by (simp add: handlePrev_mounted [OF scenario_mounted] scenario_retreat_amount_beyond
      scenario_scrolled_to) (simp add: viewport_def)

lemma ltr_container_viewport: "ltr_container (viewport L s) v = max 0 (min v 150)"
  by (simp add: ltr_container_def maxScrollLeft_def viewport_def)

lemma rtl_container_viewport: "rtl_container (viewport L s) v = min 0 (max v (- 150))"
  by (simp add: rtl_container_def maxScrollLeft_def viewport_def)

lemma offset_after_scenario: "offset_after (Inr (scenario L s)) = Some s"
  by (simp add: offset_after_def scenario_def viewport_def)

lemma rtl_scenario_mounted: "mounted (rtl_scenario s) (viewport 0 s)"
  by (simp add: mounted_def rtl_scenario_def item_def)

lemma rtl_scenario_retreat_amount: "retreat_amount (rtl_scenario 0) (viewport 0 0) = 150"
  by (simp add: retreat_amount_def visibleWidth_def inView_def rtl_scenario_def viewport_def
      item_def lies_within_def)

lemma wide_cards_inView:
  "inView wide_cards wide_viewport = [\<lparr>left = 150, right = 150, width = 0\<rparr>]"
  by (simp add: inView_def wide_cards_def wide_viewport_def item_def lies_within_def)

lemma wide_cards_mounted: "mounted wide_cards wide_viewport"
  by (simp add: mounted_def wide_cards_def item_def)

lemma wide_cards_handlePrev: "offset_after (handlePrev ltr_container wide_cards) = Some 50"
  by (simp add: handlePrev_mounted [OF wide_cards_mounted] retreat_amount_def visibleWidth_def
      wide_cards_inView offset_after_scrolled_to)
    (simp add: wide_viewport_def ltr_container_def maxScrollLeft_def)

section \<open>The claims of the specification\<close>

text \<open>
  Claim C1, amended. For every carousel state, \<open>handleScroll\<close> computes the percent as the
  scroll offset truncated to an integer, divided by the scrollable width minus the
  viewport width and rounded to two decimal places (a nearest hundredth of the quotient),
  reporting 0 instead when that quotient is not a number (zero divided by zero), and
  invokes the two callbacks with, respectively, whether the scrollable width exceeds the
  viewport width and that percent. Here \<open>t\<close> is the truncated offset: the integer
  between 0 and the offset that is less than 1 away from it.
\<close>

theorem report_progress_rounded:
  assumes "mounted c el"
  shows "\<exists>(t::int) p.
           \<bar>real_of_int t\<bar> \<le> \<bar>scrollLeft el\<bar> \<and> \<bar>scrollLeft el - real_of_int t\<bar> < 1 \<and>
           handleScroll c =
             Inr [OnChangeIsScrollable (scrollWidth el > clientWidth el), OnScroll p] \<and>
           (scrollWidth el \<noteq> clientWidth el \<longrightarrow>
              (\<exists>n::int. p = Finite (real_of_int n / 100) \<and>
                 \<bar>real_of_int n / 100
                    - real_of_int t / real_of_int (scrollWidth el - clientWidth el)\<bar> \<le> 1 / 200)) \<and>
           (scrollWidth el = clientWidth el \<and> t = 0 \<longrightarrow> p = Finite 0)"
  using handleScroll_percent [OF assms] parseInt10_truncates [of "scrollLeft el"]
  by (intro exI [of _ "parseInt10 (scrollLeft el)"]) blast

theorem report_progress_rounded_witness:
  "mounted (scenario 0 (101 / 2)) (viewport 0 (101 / 2)) \<and>
   (\<exists>(t::int) p.
      \<bar>real_of_int t\<bar> \<le> \<bar>101 / 2\<bar> \<and> \<bar>101 / 2 - real_of_int t\<bar> < 1 \<and>
      handleScroll (scenario 0 (101 / 2)) = Inr [OnChangeIsScrollable True, OnScroll p] \<and>
      (\<exists>n::int. p = Finite (real_of_int n / 100) \<and>
         \<bar>real_of_int n / 100 - real_of_int t / 150\<bar> \<le> 1 / 200))"
  using report_progress_rounded [of "scenario 0 (101 / 2)" "viewport 0 (101 / 2)"]
  by (simp add: scenario_mounted) (simp add: viewport_def)

text \<open>
  As the claim words it (the quotient of the offset itself) it fails twice. At offset 50 of
  150 the quotient is a third and 0.33 is reported: the percent is rounded. At offset
  149.5 of 150 the quotient rounds to 1 and 0.99 is reported: the offset is truncated
  first.
\<close>

theorem report_progress_counterexample:
  "handleScroll (scenario 0 50)
     \<noteq> Inr [OnChangeIsScrollable (scrollWidth (viewport 0 50) > clientWidth (viewport 0 50)),
            OnScroll (spec_scrollPercent (viewport 0 50))] \<and>
   handleScroll (scenario 0 50) = Inr [OnChangeIsScrollable True, OnScroll (Finite (33 / 100))] \<and>
   spec_scrollPercent (viewport 0 (299 / 2)) = Finite (299 / 300) \<and>
   round2 (299 / 300) = 1 \<and>
   handleScroll (scenario 0 (299 / 2))
     = Inr [OnChangeIsScrollable True, OnScroll (Finite (99 / 100))]"
  by (simp add: handleScroll_mounted [OF scenario_mounted] report_value spec_scrollPercent_def)
    (simp add: viewport_def parseInt10_def divide_number_def round2_def)

text \<open>
  Claim C2, amended. In the scenario (a viewport 300 wide holding three items 150 wide
  from left to right, its left edge at most 150 from the left edge of the window):
  \<open>advance()\<close> from scroll offset 0 asks for offset 300, whatever the container, and the
  container settles on 150, the maximum 450 - 300; then \<open>retreat()\<close> from scroll offset
  150 asks for 150 - (300 - L) and the container settles on 0.
\<close>

theorem scenario_advance_then_retreat:
  assumes "L \<le> 150"
  shows "offset_after (handleNext settle (scenario L 0)) = Some (settle (viewport L 0) 300) \<and>
         handleNext ltr_container (scenario L 0) = Inr (scenario L 150) \<and>
         offset_after (handlePrev settle (scenario L 150))
           = Some (settle (viewport L 150) (150 - (300 - L))) \<and>
         handlePrev ltr_container (scenario L 150) = Inr (scenario L 0)"
  using assms
  by (simp add: scenario_handleNext scenario_handlePrev_end offset_after_scenario
      ltr_container_viewport)

theorem scenario_advance_then_retreat_witness:
  "(0::real) \<le> 150 \<and>
   offset_after (handleNext ltr_container (scenario 0 0)) = Some (ltr_container (viewport 0 0) 300) \<and>
   handleNext ltr_container (scenario 0 0) = Inr (scenario 0 150) \<and>
   offset_after (handlePrev ltr_container (scenario 0 150))
     = Some (ltr_container (viewport 0 150) (150 - (300 - 0))) \<and>
   handlePrev ltr_container (scenario 0 150) = Inr (scenario 0 0)"
proof -
  have h: "(0::real) \<le> 150" by simp
  show ?thesis using h scenario_advance_then_retreat [OF h, of ltr_container] by blast
qed

text \<open>
  As the claim words it, it fails: the offset 300 is beyond the maximum and the container
  settles on 150, and even from offset 300 \<open>retreat()\<close> would find only the last item in
  view and go back by its width 150, not to 0. And the viewport must not stand more than
  150 from the left edge of the window: with its left edge at 200, \<open>retreat()\<close> from 150
  ends at 50.
\<close>

theorem scenario_counterexample:
  "\<not> (offset_after (handleNext ltr_container (scenario 0 0)) = Some 300 \<and>
      offset_after (handlePrev ltr_container (scenario 0 300)) = Some 0) \<and>
   offset_after (handleNext ltr_container (scenario 0 0)) = Some 150 \<and>
   offset_after (handlePrev ltr_container (scenario 0 300)) = Some 150 \<and>
   offset_after (handlePrev ltr_container (scenario 200 150)) = Some 50"
  by (simp add: scenario_handleNext scenario_handlePrev_beyond scenario_handlePrev_end
      offset_after_scenario ltr_container_viewport)

text \<open>
  Claim C3, amended. For every carousel state whose scroll container keeps every assigned
  offset between 0 and the scrollable width minus the viewport width (as a left-to-right
  container does), each of \<open>advance()\<close>, \<open>retreat()\<close> and \<open>reset()\<close> returns and leaves
  the scroll offset in that range, the widths unchanged: \<open>advance()\<close> leaves what the
  container settles on for the old offset plus the amount of \<open>advance()\<close>, whatever is
  in view, \<open>retreat()\<close> what it settles on for the old offset minus the amount of
  \<open>retreat()\<close>, and \<open>reset()\<close> leaves 0. The handlers compute no bound of their own.
\<close>

theorem navigation_keeps_scroll_range:
  assumes "mounted c el"
    and "\<forall>v. 0 \<le> settle el v \<and> settle el v \<le> real_of_int (scrollWidth el - clientWidth el)"
  shows "\<exists>cn cp cr.
           handleNext settle c = Inr cn \<and>
           scrollRef cn = Some (el\<lparr>scrollLeft := settle el (scrollLeft el + advance_amount c el)\<rparr>) \<and>
           handlePrev settle c = Inr cp \<and>
           scrollRef cp = Some (el\<lparr>scrollLeft := settle el (scrollLeft el - retreat_amount c el)\<rparr>) \<and>
           handleReset c = Inr cr \<and>
           scrollRef cr = Some (el\<lparr>scrollLeft := 0\<rparr>) \<and>
           (\<forall>c' \<in> {cn, cp, cr}. \<exists>el'. mounted c' el' \<and>
              clientWidth el' = clientWidth el \<and> scrollWidth el' = scrollWidth el \<and>
              0 \<le> scrollLeft el' \<and>
              scrollLeft el' \<le> real_of_int (scrollWidth el' - clientWidth el'))"
proof -
  have range: "\<exists>el'. mounted (scrolled_to c el v) el' \<and>
      clientWidth el' = clientWidth el \<and> scrollWidth el' = scrollWidth el \<and>
      0 \<le> scrollLeft el' \<and> scrollLeft el' \<le> real_of_int (scrollWidth el' - clientWidth el')"
    if "0 \<le> v" "v \<le> real_of_int (scrollWidth el - clientWidth el)" for v
    using scrolled_to_mounted [OF assms(1), of v] that
    by (intro exI [of _ "el\<lparr>scrollLeft := v\<rparr>"]) simp
  from assms(2) have zero: "0 \<le> real_of_int (scrollWidth el - clientWidth el)"
    by (meson order_trans)
  show ?thesis
    using assms(2) range zero
    by (simp add: handleNext_mounted [OF assms(1)] handlePrev_mounted [OF assms(1)]
        handleReset_mounted [OF assms(1)] scrolled_to_scrollRef)
qed

theorem navigation_keeps_scroll_range_witness:
  "mounted (scenario 0 0) (viewport 0 0) \<and>
   (\<forall>v. 0 \<le> ltr_container (viewport 0 0) v \<and>
      ltr_container (viewport 0 0) v
        \<le> real_of_int (scrollWidth (viewport 0 0) - clientWidth (viewport 0 0))) \<and>
   (\<exists>cn cp cr.
      handleNext ltr_container (scenario 0 0) = Inr cn \<and> scrollRef cn = Some (viewport 0 150) \<and>
      handlePrev ltr_container (scenario 0 0) = Inr cp \<and> scrollRef cp = Some (viewport 0 0) \<and>
      handleReset (scenario 0 0) = Inr cr \<and> scrollRef cr = Some (viewport 0 0) \<and>
      (\<exists>el'. mounted cn el' \<and> 0 \<le> scrollLeft el' \<and>
         scrollLeft el' \<le> real_of_int (scrollWidth el' - clientWidth el')) \<and>
      (\<exists>el'. mounted cp el' \<and> 0 \<le> scrollLeft el' \<and>
         scrollLeft el' \<le> real_of_int (scrollWidth el' - clientWidth el')) \<and>
      (\<exists>el'. mounted cr el' \<and> 0 \<le> scrollLeft el' \<and>
         scrollLeft el' \<le> real_of_int (scrollWidth el' - clientWidth el')))"
proof -
  have h: "\<forall>v. 0 \<le> ltr_container (viewport 0 0) v \<and>
      ltr_container (viewport 0 0) v
        \<le> real_of_int (scrollWidth (viewport 0 0) - clientWidth (viewport 0 0))"
    by (simp add: ltr_container_viewport) (simp add: viewport_def)
  have amounts: "ltr_container (viewport 0 0) (scrollLeft (viewport 0 0)
        + advance_amount (scenario 0 0) (viewport 0 0)) = 150"
    "ltr_container (viewport 0 0) (scrollLeft (viewport 0 0)
        - retreat_amount (scenario 0 0) (viewport 0 0)) = 0"
    by (simp_all add: scenario_advance_amount scenario_retreat_amount_start
        ltr_container_viewport) (simp_all add: viewport_def)
  have vp: "(viewport 0 0)\<lparr>scrollLeft := 150\<rparr> = viewport 0 150"
    "(viewport 0 0)\<lparr>scrollLeft := 0\<rparr> = viewport 0 0"
    by (simp_all add: viewport_def)
  from navigation_keeps_scroll_range
    [where c = "scenario 0 0" and el = "viewport 0 0" and settle = ltr_container,
      OF scenario_mounted h]
  obtain cn cp cr where
    "handleNext ltr_container (scenario 0 0) = Inr cn" "scrollRef cn = Some (viewport 0 150)"
    "handlePrev ltr_container (scenario 0 0) = Inr cp" "scrollRef cp = Some (viewport 0 0)"
    "handleReset (scenario 0 0) = Inr cr" "scrollRef cr = Some (viewport 0 0)"
    "\<forall>c' \<in> {cn, cp, cr}. \<exists>el'. mounted c' el' \<and>
       clientWidth el' = clientWidth (viewport 0 0) \<and>
       scrollWidth el' = scrollWidth (viewport 0 0) \<and>
       0 \<le> scrollLeft el' \<and> scrollLeft el' \<le> real_of_int (scrollWidth el' - clientWidth el')"
    unfolding amounts vp by blast
  with scenario_mounted h show ?thesis
    by (intro conjI exI [of _ cn] exI [of _ cp] exI [of _ cr]) auto
qed

text \<open>
  As the claim words it, it fails in a right-to-left container: the scenario's items at
  scroll offset 0, which lies between 0 and 450 - 300, and \<open>retreat()\<close> leaves the
  scroll offset - 150.
\<close>

theorem navigation_counterexample:
  "mounted (rtl_scenario 0) (viewport 0 0) \<and>
   0 \<le> scrollLeft (viewport 0 0) \<and>
   scrollLeft (viewport 0 0)
     \<le> real_of_int (scrollWidth (viewport 0 0) - clientWidth (viewport 0 0)) \<and>
   offset_after (handlePrev rtl_container (rtl_scenario 0)) = Some (- 150)"
  by (simp add: rtl_scenario_mounted handlePrev_mounted [OF rtl_scenario_mounted]
      rtl_scenario_retreat_amount offset_after_scrolled_to rtl_container_viewport)
    (simp add: viewport_def)

text \<open>
  Claim C4, amended. For every carousel state, \<open>retreat()\<close> assigns to the scroll offset
  its old value minus (the sum of the widths of the fully visible items minus the left
  offset of the first fully visible item) when that sum is positive, and otherwise its old
  value minus (the width of the viewport's bounding box plus its left offset); the scroll
  offset becomes what the scroll container settles on for that number, whatever the
  container.
\<close>

theorem retreat_assigns_scroll_offset:
  assumes "mounted c el"
  shows "\<exists>c'. handlePrev settle c = Inr c' \<and>
           scrollRef c' =
             Some (el\<lparr>scrollLeft :=
               settle el
                 (scrollLeft el -
                    (if visibleWidth c el > 0
                     then visibleWidth c el - left (hd (inView c el))
                     else width (boundingClientRect el) + left (boundingClientRect el)))\<rparr>)"
  by (simp add: handlePrev_mounted [OF assms] scrolled_to_scrollRef retreat_amount_def)

theorem retreat_assigns_scroll_offset_witness:
  "mounted (scenario 0 150) (viewport 0 150) \<and>
   (\<exists>c'. handlePrev ltr_container (scenario 0 150) = Inr c' \<and> scrollRef c' = Some (viewport 0 0))"
  using retreat_assigns_scroll_offset [of "scenario 0 150" "viewport 0 150" ltr_container]
  by (simp add: scenario_mounted visibleWidth_def scenario_inView_end ltr_container_viewport)
    (simp add: viewport_def)

text \<open>
  As the claim words it, it fails twice. With an empty item alone in view the sum is 0 and
  the handler takes the fallback although an item is fully visible; and the scroll offset
  decreases only as far as the container scrolls (in the scenario, from 150 to 0 and not
  by 300).
\<close>

theorem retreat_counterexample:
  "inView wide_cards wide_viewport \<noteq> [] \<and>
   offset_after (handlePrev ltr_container wide_cards)
     \<noteq> Some (scrollLeft wide_viewport -
          (visibleWidth wide_cards wide_viewport - left (hd (inView wide_cards wide_viewport)))) \<and>
   inView (scenario 0 150) (viewport 0 150) \<noteq> [] \<and>
   offset_after (handlePrev ltr_container (scenario 0 150))
     \<noteq> Some (scrollLeft (viewport 0 150) -
          (visibleWidth (scenario 0 150) (viewport 0 150)
             - left (hd (inView (scenario 0 150) (viewport 0 150)))))"
proof -
  have "offset_after (handlePrev ltr_container (scenario 0 150)) = Some 0"
    by (simp add: scenario_handlePrev_end offset_after_scenario ltr_container_viewport)
  then show ?thesis
    by (simp add: wide_cards_handlePrev visibleWidth_def wide_cards_inView scenario_inView_end)
      (simp add: wide_viewport_def viewport_def)
qed

text \<open>
  Claim C5, amended. For every carousel state, \<open>advance()\<close> assigns to the scroll offset
  its old value plus the sum of the widths of the items whose bounding boxes lie
  (horizontally) within the viewport's bounding box when that sum is positive, and
  otherwise its old value plus the width of the viewport's bounding box; the scroll offset
  becomes what the scroll container settles on for that number, whatever the container.
  It returns nothing, and nothing but the scroll offset changes (the items keep their
  widths and move with the content).
\<close>

theorem advance_assigns_scroll_offset:
  assumes "mounted c el"
  shows "\<exists>c'. handleNext settle c = Inr c' \<and>
           scrollRef c' =
             Some (el\<lparr>scrollLeft :=
               settle el
                 (scrollLeft el +
                    (if visibleWidth c el > 0 then visibleWidth c el
                     else width (boundingClientRect el)))\<rparr>) \<and>
           map (map_option width) (childElementsRef c') = map (map_option width) (childElementsRef c)"
  by (simp add: handleNext_mounted [OF assms] scrolled_to_scrollRef scrolled_to_widths
      advance_amount_def)

theorem advance_assigns_scroll_offset_witness:
  "mounted (scenario 0 0) (viewport 0 0) \<and>
   (\<exists>c'. handleNext ltr_container (scenario 0 0) = Inr c' \<and>
      scrollRef c' = Some (viewport 0 150) \<and>
      map (map_option width) (childElementsRef c') = [Some 150, Some 150, Some 150])"
  using advance_assigns_scroll_offset [of "scenario 0 0" "viewport 0 0" ltr_container]
  by (simp add: scenario_mounted visibleWidth_def scenario_inView_start ltr_container_viewport)
    (simp add: scenario_def viewport_def item_def)

text \<open>
  As the claim words it, it fails where the content ends: in the scenario, from offset 0
  with 300 in view, the container settles on 150.
\<close>

theorem advance_counterexample:
  "0 < visibleWidth (scenario 0 0) (viewport 0 0) \<and>
   offset_after (handleNext ltr_container (scenario 0 0))
     \<noteq> Some (scrollLeft (viewport 0 0) + visibleWidth (scenario 0 0) (viewport 0 0))"
  by (simp add: visibleWidth_def scenario_inView_start scenario_handleNext offset_after_scenario
      ltr_container_viewport)
    (simp add: viewport_def)

text \<open>
  Claim C6. Where the scrollable width is at most the viewport width, \<open>handleScroll\<close>
  invokes \<open>onChangeIsScrollable\<close> with false and \<open>onScroll\<close> with 0. Content that fits
  cannot be scrolled: the scroll offset of such a state is 0, which is what the invariant
  of the data model says there.
\<close>

theorem not_scrollable_reports_zero:
  assumes "mounted c el" and "scrollWidth el \<le> clientWidth el" and "within_scroll_range el"
  shows "handleScroll c = Inr [OnChangeIsScrollable False, OnScroll (Finite 0)]"
proof -
  from assms(2,3) have "scrollLeft el = 0"
    by (simp add: within_scroll_range_def maxScrollLeft_def)
  with assms(2) handleScroll_mounted [OF assms(1)] show ?thesis
    by (simp add: parseInt10_def report_zero)
qed

theorem not_scrollable_reports_zero_witness:
  "mounted
     \<lparr>scrollRef = Some \<lparr>clientWidth = 300, scrollLeft = 0, scrollWidth = 300,
         boundingClientRect = \<lparr>left = 0, right = 300, width = 300\<rparr>\<rparr>,
      childElementsRef = [item 0 150, item 150 150]\<rparr>
     \<lparr>clientWidth = 300, scrollLeft = 0, scrollWidth = 300,
       boundingClientRect = \<lparr>left = 0, right = 300, width = 300\<rparr>\<rparr> \<and>
   handleScroll
     \<lparr>scrollRef = Some \<lparr>clientWidth = 300, scrollLeft = 0, scrollWidth = 300,
         boundingClientRect = \<lparr>left = 0, right = 300, width = 300\<rparr>\<rparr>,
      childElementsRef = [item 0 150, item 150 150]\<rparr>
     = Inr [OnChangeIsScrollable False, OnScroll (Finite 0)]"
  using not_scrollable_reports_zero
    [of "\<lparr>scrollRef = Some \<lparr>clientWidth = 300, scrollLeft = 0, scrollWidth = 300,
             boundingClientRect = \<lparr>left = 0, right = 300, width = 300\<rparr>\<rparr>,
           childElementsRef = [item 0 150, item 150 150]\<rparr>"
        "\<lparr>clientWidth = 300, scrollLeft = 0, scrollWidth = 300,
           boundingClientRect = \<lparr>left = 0, right = 300, width = 300\<rparr>\<rparr>"]
  by (simp add: mounted_def item_def within_scroll_range_def maxScrollLeft_def)

text \<open>
  Claim C7. Where the scrollable width is greater than the viewport width and the scroll
  offset lies between 0 and their difference, the percent passed to \<open>onScroll\<close> lies
  between 0 and 1.
\<close>

theorem percent_within_unit_interval:
  assumes "mounted c el" and "scrollWidth el > clientWidth el"
    and "0 \<le> scrollLeft el"
    and "scrollLeft el \<le> real_of_int (scrollWidth el - clientWidth el)"
  shows "\<exists>p. handleScroll c = Inr [OnChangeIsScrollable True, OnScroll (Finite p)] \<and>
           0 \<le> p \<and> p \<le> 1"
proof -
  define t where "t = parseInt10 (scrollLeft el)"
  define m where "m = scrollWidth el - clientWidth el"
  have m: "0 < m" using assms(2) by (simp add: m_def)
  have t: "t = \<lfloor>scrollLeft el\<rfloor>" using assms(3) by (simp add: t_def parseInt10_def)
  have t0: "0 \<le> t" using assms(3) by (simp add: t)
  have "real_of_int t \<le> scrollLeft el" unfolding t by linarith
  with assms(4) have "real_of_int t \<le> real_of_int m" by (simp add: m_def)
  with m t0 have q: "0 \<le> real_of_int t / real_of_int m" "real_of_int t / real_of_int m \<le> 1"
    by simp_all
  have "handleScroll c = Inr [OnChangeIsScrollable True,
          OnScroll (Finite (round2 (real_of_int t / real_of_int m)))]"
    using handleScroll_mounted [OF assms(1)] assms(2) m
    by (simp add: report_value t_def m_def)
  with round2_unit [OF q] show ?thesis by blast
qed

theorem percent_within_unit_interval_witness:
  "mounted (scenario 0 50) (viewport 0 50) \<and>
   (\<exists>p. handleScroll (scenario 0 50) = Inr [OnChangeIsScrollable True, OnScroll (Finite p)] \<and>
      0 \<le> p \<and> p \<le> 1)"
  using percent_within_unit_interval [of "scenario 0 50" "viewport 0 50"]
  by (simp add: mounted_def scenario_def viewport_def item_def)

text \<open>
  Claim C8. For every carousel state, \<open>reset()\<close> followed by \<open>reportProgress()\<close> yields
  percent 0: after \<open>handleReset\<close>, \<open>handleScroll\<close> passes 0 to \<open>onScroll\<close> (and the
  scrollability, which the reset does not change, to \<open>onChangeIsScrollable\<close>).
\<close>

theorem reset_then_report_zero:
  assumes "mounted c el"
  shows "\<exists>c'. handleReset c = Inr c' \<and>
           handleScroll c' =
             Inr [OnChangeIsScrollable (scrollWidth el > clientWidth el), OnScroll (Finite 0)]"
proof -
  let ?el' = "el\<lparr>scrollLeft := 0\<rparr>"
  have "mounted (scrolled_to c el 0) ?el'"
    using assms by (rule scrolled_to_mounted)
  then have "handleScroll (scrolled_to c el 0) =
      Inr [OnChangeIsScrollable (scrollWidth el > clientWidth el), OnScroll (Finite 0)]"
    using handleScroll_mounted [of "scrolled_to c el 0" ?el']
    by (simp add: parseInt10_def report_zero)
  with handleReset_mounted [OF assms] show ?thesis
    by simp
qed

theorem reset_then_report_zero_witness:
  "mounted (scenario 0 100) (viewport 0 100) \<and>
   (\<exists>c'. handleReset (scenario 0 100) = Inr c' \<and>
      handleScroll c' = Inr [OnChangeIsScrollable True, OnScroll (Finite 0)])"
  using reset_then_report_zero [of "scenario 0 100" "viewport 0 100"]
  by (simp add: mounted_def scenario_def viewport_def item_def)

text \<open>
  Claim C9, amended. \<open>onChangeIsScrollable\<close> is invoked once on every \<open>scrollend\<close>
  event, with the scrollability at that moment, whether or not it differs from the value
  reported before: the component keeps no record of what it reported.
\<close>

theorem every_scrollend_reports_scrollability:
  assumes "\<forall>c \<in> set cs. \<exists>el. mounted c el"
  shows "isScrollable_reports (map handleScrollend cs) = map is_scrollable cs"
  using assms
proof (induction cs)
  case Nil
  show ?case by simp
next
  case (Cons c cs)
  then obtain el where "mounted c el" by auto
  then obtain p where "handleScrollend c = Inr [OnChangeIsScrollable (is_scrollable c), OnScroll p]"
    using handleScrollend_mounted by blast
  with Cons show ?case by simp
qed

theorem every_scrollend_reports_scrollability_witness:
  "mounted (scenario 0 0) (viewport 0 0) \<and> mounted (scenario 0 150) (viewport 0 150) \<and>
   isScrollable_reports (map handleScrollend [scenario 0 0, scenario 0 150]) = [True, True]"
proof -
  have h: "\<forall>c \<in> set [scenario 0 0, scenario 0 150]. \<exists>el. mounted c el"
    using scenario_mounted by auto
  have "map is_scrollable [scenario 0 0, scenario 0 150] = [True, True]"
    by (simp add: is_scrollable_def scenario_def viewport_def)
  with every_scrollend_reports_scrollability [OF h] show ?thesis
    by (simp add: scenario_mounted)
qed

text \<open>
  As the claim words it, it fails: two \<open>scrollend\<close> events of the scenario, at offsets 0
  and 150, both report true.
\<close>

theorem scrollend_counterexample:
  "\<not> distinct_adj (isScrollable_reports (map handleScrollend [scenario 0 0, scenario 0 150]))"
proof -
  have "handleScrollend (scenario 0 0) = Inr [OnChangeIsScrollable True, OnScroll (Finite 0)]"
    by (simp add: handleScrollend_def handleScroll_mounted [OF scenario_mounted] report_value)
      (simp add: viewport_def parseInt10_def round2_def)
  moreover have
    "handleScrollend (scenario 0 150) = Inr [OnChangeIsScrollable True, OnScroll (Finite 1)]"
    by (simp add: handleScrollend_def handleScroll_mounted [OF scenario_mounted] report_value)
      (simp add: viewport_def parseInt10_def round2_def)
  ultimately show ?thesis by simp
qed

text \<open>
  Claim C10. The percent passed to \<open>onScroll\<close> is computed from the scroll offset
  truncated to an integer \<open>t\<close> and has exactly two decimal places: it is \<open>n / 100\<close> for
  the integer \<open>n\<close> nearest to a hundred times the ratio of \<open>t\<close> to the scrollable width
  minus the viewport width; a ratio that rounds to 0.00 is reported as 0. (Where the
  widths are equal the offset is 0 and 0 is reported.)
\<close>

theorem percent_truncated_and_rounded:
  assumes "mounted c el" and "within_scroll_range el \<or> scrollWidth el \<noteq> clientWidth el"
  shows "\<exists>(t::int) (n::int).
           \<bar>real_of_int t\<bar> \<le> \<bar>scrollLeft el\<bar> \<and> \<bar>scrollLeft el - real_of_int t\<bar> < 1 \<and>
           handleScroll c =
             Inr [OnChangeIsScrollable (scrollWidth el > clientWidth el),
                  OnScroll (Finite (real_of_int n / 100))] \<and>
           (scrollWidth el \<noteq> clientWidth el \<longrightarrow>
              \<bar>real_of_int n / 100 - real_of_int t / real_of_int (scrollWidth el - clientWidth el)\<bar>
                \<le> 1 / 200 \<and>
              (\<bar>real_of_int t / real_of_int (scrollWidth el - clientWidth el)\<bar> < 1 / 200
                 \<longrightarrow> n = 0))"
proof -
  define t where "t = parseInt10 (scrollLeft el)"
  define m where "m = scrollWidth el - clientWidth el"
  note tr = parseInt10_truncates [of "scrollLeft el", folded t_def]
  show ?thesis
  proof (cases "m = 0")
    case True
    with assms(2) have "scrollLeft el = 0"
      by (auto simp: m_def within_scroll_range_def maxScrollLeft_def)
    then have "handleScroll c =
        Inr [OnChangeIsScrollable (scrollWidth el > clientWidth el),
             OnScroll (Finite (real_of_int 0 / 100))]"
      using handleScroll_mounted [OF assms(1)] by (simp add: parseInt10_def report_zero)
    with tr True show ?thesis
      unfolding m_def by (intro exI [of _ t] exI [of _ 0]) simp
  next
    case False
    obtain n :: int where n: "round2 (real_of_int t / real_of_int m) = real_of_int n / 100"
      using round2_hundredth by blast
    have near: "\<bar>real_of_int n / 100 - real_of_int t / real_of_int m\<bar> \<le> 1 / 200"
      using round2_near [of "real_of_int t / real_of_int m"] by (simp add: n)
    have zero: "n = 0" if "\<bar>real_of_int t / real_of_int m\<bar> < 1 / 200"
    proof -
      from near that have "\<bar>real_of_int n / 100\<bar> < 1 / 100" by linarith
      then have "\<bar>real_of_int n\<bar> < 1" by simp
      then show ?thesis by linarith
    qed
    have "handleScroll c =
        Inr [OnChangeIsScrollable (scrollWidth el > clientWidth el),
             OnScroll (Finite (real_of_int n / 100))]"
      using handleScroll_mounted [OF assms(1)] False
      by (simp add: report_value t_def [symmetric] m_def [symmetric] n)
    with tr near zero show ?thesis
      unfolding m_def [symmetric] by (intro exI [of _ t] exI [of _ n]) simp
  qed
qed

theorem percent_truncated_and_rounded_witness:
  "mounted (scenario 0 (101 / 2)) (viewport 0 (101 / 2)) \<and>
   (within_scroll_range (viewport 0 (101 / 2))
      \<or> scrollWidth (viewport 0 (101 / 2)) \<noteq> clientWidth (viewport 0 (101 / 2))) \<and>
   (\<exists>(t::int) (n::int).
      \<bar>real_of_int t\<bar> \<le> \<bar>101 / 2\<bar> \<and> \<bar>101 / 2 - real_of_int t\<bar> < 1 \<and>
      handleScroll (scenario 0 (101 / 2)) =
        Inr [OnChangeIsScrollable True, OnScroll (Finite (real_of_int n / 100))] \<and>
      \<bar>real_of_int n / 100 - real_of_int t / 150\<bar> \<le> 1 / 200 \<and>
      (\<bar>real_of_int t / 150\<bar> < 1 / 200 \<longrightarrow> n = 0))"
  using percent_truncated_and_rounded [of "scenario 0 (101 / 2)" "viewport 0 (101 / 2)"]
  by (simp add: scenario_mounted) (simp add: viewport_def)

end
